theory Spec2Isabelle
  imports Main "HOL-Library.Word"
begin

section \<open>The Kompute Manager: resource factory, registry and teardown\<close>

text \<open>
  A shallow embedding of \<^verbatim>\<open>kp::Manager\<close> (\<^verbatim>\<open>src/include/kompute/Manager.hpp\<close>).
  A member function becomes a function that takes the manager (\<open>this\<close>) and the part of
  the program state it shares with its callers (the \<open>world\<close>: the objects behind
  \<^verbatim>\<open>std::shared_ptr\<close> and the log of Vulkan destroy calls) and returns both updated.
\<close>

subsection \<open>Scalars and handles\<close>

type_synonym uint32_t = "32 word"

text \<open>A single-precision float, as its IEEE-754 bit pattern; the manager only stores and
  forwards such values.\<close>
type_synonym float = "32 word"

text \<open>A native Vulkan object behind \<^verbatim>\<open>std::shared_ptr<vk::...>\<close>; \<open>None\<close> is \<^verbatim>\<open>nullptr\<close>.\<close>
type_synonym vk_handle = "nat option"

text \<open>The \<^verbatim>\<open>void*\<close> of the raw tensor overload, as an address.\<close>
type_synonym void_ptr = nat

text \<open>The address of the control block that a \<^verbatim>\<open>std::shared_ptr\<close> points to.\<close>
type_synonym shared_ptr = nat

text \<open>A \<^verbatim>\<open>std::weak_ptr\<close>: the same control block, without a share in the use count.\<close>
datatype weak_ptr = Weak shared_ptr

text \<open>Modelled from the spec: \<^verbatim>\<open>Tensor::TensorTypes\<close> is declared in Tensor.hpp, which is
  not part of the sources; the header names \<^verbatim>\<open>eDevice\<close>, the spec gives the storage
  classes device-local, host-visible/staging and device-and-host.\<close>
datatype TensorTypes = eDevice | eHost | eStorage

text \<open>Modelled from the spec: \<^verbatim>\<open>Tensor::TensorDataTypes\<close> is declared in Tensor.hpp; the
  spec only says it tags the element data type, so the tag is kept as the enumerator's
  number.\<close>
type_synonym TensorDataTypes = nat

text \<open>Modelled from the spec: \<^verbatim>\<open>kp::Workgroup\<close> is declared in Core.hpp; the spec gives a
  3-dimensional dispatch size. The default argument \<^verbatim>\<open>{}\<close> is the all-zero value.\<close>
type_synonym Workgroup = "uint32_t \<times> uint32_t \<times> uint32_t"

definition Workgroup_unset :: Workgroup where
  "Workgroup_unset = (0, 0, 0)"

subsection \<open>Resources and the shared-pointer store\<close>

text \<open>
  The constructors of \<^verbatim>\<open>kp::TensorT<T>\<close>, \<^verbatim>\<open>kp::Tensor\<close>, \<^verbatim>\<open>kp::Algorithm\<close> and
  \<^verbatim>\<open>kp::Sequence\<close> are not part of the sources. A resource is therefore the constructor
  call that built it, with the arguments in the order of the call. The template
  parameters \<^verbatim>\<open>T\<close>, \<^verbatim>\<open>S\<close> and \<^verbatim>\<open>P\<close> are the type variables \<open>'t\<close>, \<open>'s\<close> and \<open>'p\<close>.
\<close>

datatype ('t, 's, 'p) resource =
    TensorT_new vk_handle vk_handle "'t list" TensorTypes
  | Tensor_new vk_handle vk_handle void_ptr uint32_t uint32_t TensorDataTypes TensorTypes
  | Algorithm_new vk_handle "shared_ptr list" "uint32_t list" Workgroup "'s list" "'p list"
  | Sequence_new vk_handle vk_handle uint32_t uint32_t

text \<open>
  A control block with its object. \<open>use_count\<close> is the number of owning
  \<^verbatim>\<open>std::shared_ptr\<close> copies; the object is destroyed when it reaches \<open>0\<close>, and the block
  stays for the weak pointers. \<open>released\<close> records that the resource's own
  \<^verbatim>\<open>destroy()\<close> has run (its GPU memory and handles are gone).
\<close>

record ('t, 's, 'p) cell =
  object :: "('t, 's, 'p) resource"
  use_count :: nat
  released :: bool

datatype vk_call = DestroyDevice nat | DestroyInstance nat

record ('t, 's, 'p) world =
  heap :: "('t, 's, 'p) cell list"
  vk_log :: "vk_call list"

text \<open>\<^verbatim>\<open>std::shared_ptr<X> p{ new X(...) }\<close>: a fresh control block with one owner.\<close>
definition make_shared ::
  "('t, 's, 'p) resource \<Rightarrow> ('t, 's, 'p) world \<Rightarrow> shared_ptr \<times> ('t, 's, 'p) world" where
  "make_shared x w =
     (length (heap w),
      w\<lparr>heap := heap w @ [\<lparr>object = x, use_count = 1, released = False\<rparr>]\<rparr>)"

text \<open>\<^verbatim>\<open>weak_ptr::expired()\<close>: no owner is left. A pointer to no block is expired.\<close>
fun expired :: "weak_ptr \<Rightarrow> ('t, 's, 'p) world \<Rightarrow> bool" where
  "expired (Weak a) w = (if a < length (heap w) then use_count (heap w ! a) = 0 else True)"

text \<open>An owner copies its \<^verbatim>\<open>shared_ptr\<close>. A destroyed object cannot be owned again.
  The owners are the callers of the factory methods and whatever they pass their pointers
  to (an Algorithm that keeps the tensors it was given is such an owner); the manager is
  never one.\<close>
definition copy_ptr :: "shared_ptr \<Rightarrow> ('t, 's, 'p) world \<Rightarrow> ('t, 's, 'p) world" where
  "copy_ptr a w =
     (if a < length (heap w) \<and> 0 < use_count (heap w ! a)
      then w\<lparr>heap := (heap w)[a := (heap w ! a)\<lparr>use_count := use_count (heap w ! a) + 1\<rparr>]\<rparr>
      else w)"

text \<open>An owner drops its \<^verbatim>\<open>shared_ptr\<close> (it goes out of scope or is reset).\<close>
definition drop_ptr :: "shared_ptr \<Rightarrow> ('t, 's, 'p) world \<Rightarrow> ('t, 's, 'p) world" where
  "drop_ptr a w =
     (if a < length (heap w) \<and> 0 < use_count (heap w ! a)
      then w\<lparr>heap := (heap w)[a := (heap w ! a)\<lparr>use_count := use_count (heap w ! a) - 1\<rparr>]\<rparr>
      else w)"

fun drop_all :: "shared_ptr list \<Rightarrow> ('t, 's, 'p) world \<Rightarrow> ('t, 's, 'p) world" where
  "drop_all [] w = w"
| "drop_all (a # as) w = drop_all as (drop_ptr a w)"

subsection \<open>The manager\<close>

text \<open>Modelled from the spec: the teardown state machine (Active, then Destroyed, which is
  terminal) is implemented in Manager.cpp, which is not part of the sources.\<close>
datatype lifecycle = Active | Destroyed

text \<open>
  The private members of \<^verbatim>\<open>kp::Manager\<close>, in the order of the header. The last field is
  the mark of the teardown state machine.
\<close>

record Manager =
  mInstance :: vk_handle
  mFreeInstance :: bool
  mPhysicalDevice :: vk_handle
  mDevice :: vk_handle
  mFreeDevice :: bool
  mManagedTensors :: "weak_ptr list"
  mManagedSequences :: "weak_ptr list"
  mManagedAlgorithms :: "weak_ptr list"
  mComputeQueueFamilyIndices :: "uint32_t list"
  mComputeQueues :: "nat list"
  mManageResources :: bool
  teardown :: lifecycle

text \<open>The default member initialisers of the header: every handle is \<^verbatim>\<open>nullptr\<close>, every
  flag is \<^verbatim>\<open>false\<close>, every vector is empty.\<close>
definition Manager_members :: Manager where
  "Manager_members =
     \<lparr>mInstance = None, mFreeInstance = False, mPhysicalDevice = None, mDevice = None,
      mFreeDevice = False, mManagedTensors = [], mManagedSequences = [],
      mManagedAlgorithms = [], mComputeQueueFamilyIndices = [], mComputeQueues = [],
      mManageResources = False, teardown = Active\<rparr>"

subsection \<open>The factory methods of the header\<close>

text \<open>\<^verbatim>\<open>template<typename T> tensorT(data, tensorType)\<close>.\<close>
definition tensorT ::
  "'t list \<Rightarrow> TensorTypes \<Rightarrow> Manager \<Rightarrow> ('t, 's, 'p) world
     \<Rightarrow> shared_ptr \<times> Manager \<times> ('t, 's, 'p) world" where
  "tensorT data tensorType this w =
     (let (tensor, w') =
            make_shared (TensorT_new (mPhysicalDevice this) (mDevice this) data tensorType) w;
          this' = (if mManageResources this
                   then this\<lparr>mManagedTensors := mManagedTensors this @ [Weak tensor]\<rparr>
                   else this)
      in (tensor, this', w'))"

text \<open>The overload \<^verbatim>\<open>tensor(const std::vector<float>&, tensorType)\<close>.\<close>
definition tensor ::
  "float list \<Rightarrow> TensorTypes \<Rightarrow> Manager \<Rightarrow> (float, 's, 'p) world
     \<Rightarrow> shared_ptr \<times> Manager \<times> (float, 's, 'p) world" where
  "tensor data tensorType this w = tensorT data tensorType this w"

text \<open>The overload \<^verbatim>\<open>tensor(void*, elementTotalCount, elementMemorySize, dataType,
  tensorType)\<close>.\<close>
definition tensor_raw ::
  "void_ptr \<Rightarrow> uint32_t \<Rightarrow> uint32_t \<Rightarrow> TensorDataTypes \<Rightarrow> TensorTypes \<Rightarrow> Manager
     \<Rightarrow> ('t, 's, 'p) world \<Rightarrow> shared_ptr \<times> Manager \<times> ('t, 's, 'p) world" where
  "tensor_raw data elementTotalCount elementMemorySize dataType tensorType this w =
     (let (tensor, w') =
            make_shared (Tensor_new (mPhysicalDevice this) (mDevice this) data
                           elementTotalCount elementMemorySize dataType tensorType) w;
          this' = (if mManageResources this
                   then this\<lparr>mManagedTensors := mManagedTensors this @ [Weak tensor]\<rparr>
                   else this)
      in (tensor, this', w'))"

text \<open>\<^verbatim>\<open>template<typename S = float, typename P = float> algorithm(tensors, spirv,
  workgroup, specializationConstants, pushConstants)\<close>.\<close>
definition algorithmT ::
  "shared_ptr list \<Rightarrow> uint32_t list \<Rightarrow> Workgroup \<Rightarrow> 's list \<Rightarrow> 'p list \<Rightarrow> Manager
     \<Rightarrow> ('t, 's, 'p) world \<Rightarrow> shared_ptr \<times> Manager \<times> ('t, 's, 'p) world" where
  "algorithmT tensors spirv workgroup specializationConstants pushConstants this w =
     (let (algorithm, w') =
            make_shared (Algorithm_new (mDevice this) tensors spirv workgroup
                           specializationConstants pushConstants) w;
          this' = (if mManageResources this
                   then this\<lparr>mManagedAlgorithms := mManagedAlgorithms this @ [Weak algorithm]\<rparr>
                   else this)
      in (algorithm, this', w'))"

text \<open>The non-template \<^verbatim>\<open>algorithm\<close>, whose constant lists are \<^verbatim>\<open>std::vector<float>\<close>; it
  calls \<^verbatim>\<open>this->algorithm<>(...)\<close>, the template at its default arguments.\<close>
definition algorithm ::
  "shared_ptr list \<Rightarrow> uint32_t list \<Rightarrow> Workgroup \<Rightarrow> float list \<Rightarrow> float list \<Rightarrow> Manager
     \<Rightarrow> ('t, float, float) world \<Rightarrow> shared_ptr \<times> Manager \<times> ('t, float, float) world" where
  "algorithm tensors spirv workgroup specializationConstants pushConstants this w =
     algorithmT tensors spirv workgroup specializationConstants pushConstants this w"

subsection \<open>The operations defined in Manager.cpp\<close>

text \<open>Modelled from the spec: \<^verbatim>\<open>sequence(queueIndex, totalTimestamps)\<close> is only declared in
  the header. The spec: it constructs a Sequence that refers to the device context, with
  the queue index that selects its queue and the timestamp capacity, and registers it iff
  resource management is enabled.\<close>
definition sequence ::
  "uint32_t \<Rightarrow> uint32_t \<Rightarrow> Manager \<Rightarrow> ('t, 's, 'p) world
     \<Rightarrow> shared_ptr \<times> Manager \<times> ('t, 's, 'p) world" where
  "sequence queueIndex totalTimestamps this w =
     (let (sq, w') =
            make_shared (Sequence_new (mPhysicalDevice this) (mDevice this) queueIndex
                           totalTimestamps) w;
          this' = (if mManageResources this
                   then this\<lparr>mManagedSequences := mManagedSequences this @ [Weak sq]\<rparr>
                   else this)
      in (sq, this', w'))"

text \<open>Modelled from the spec: \<^verbatim>\<open>clear()\<close> is only declared in the header. The spec: for
  each collection it removes every entry whose referent has already been destroyed; the
  entries whose referent is alive stay, and no resource is touched.\<close>
definition clear :: "Manager \<Rightarrow> ('t, 's, 'p) world \<Rightarrow> Manager \<times> ('t, 's, 'p) world" where
  "clear this w =
     (this\<lparr>mManagedTensors := filter (\<lambda>p. \<not> expired p w) (mManagedTensors this),
           mManagedSequences := filter (\<lambda>p. \<not> expired p w) (mManagedSequences this),
           mManagedAlgorithms := filter (\<lambda>p. \<not> expired p w) (mManagedAlgorithms this)\<rparr>,
      w)"

text \<open>Modelled from the spec: the drain of the registry, which \<^verbatim>\<open>destroy()\<close> performs in
  Manager.cpp. For an entry that still has a live referent the resource's own
  \<^verbatim>\<open>destroy()\<close> is called; an expired entry is passed over.\<close>
fun release_live :: "weak_ptr \<Rightarrow> ('t, 's, 'p) world \<Rightarrow> ('t, 's, 'p) world" where
  "release_live (Weak a) w =
     (if expired (Weak a) w then w
      else w\<lparr>heap := (heap w)[a := (heap w ! a)\<lparr>released := True\<rparr>]\<rparr>)"

text \<open>Modelled from the spec: the drain of one collection, entry by entry.\<close>
fun drain :: "weak_ptr list \<Rightarrow> ('t, 's, 'p) world \<Rightarrow> ('t, 's, 'p) world" where
  "drain [] w = w"
| "drain (p # ps) w = drain ps (release_live p w)"

text \<open>The release of a native handle: one destroy call of the Vulkan API, logged.\<close>
definition vk_destroy ::
  "(nat \<Rightarrow> vk_call) \<Rightarrow> vk_handle \<Rightarrow> ('t, 's, 'p) world \<Rightarrow> ('t, 's, 'p) world" where
  "vk_destroy call h w =
     (case h of None \<Rightarrow> w | Some n \<Rightarrow> w\<lparr>vk_log := vk_log w @ [call n]\<rparr>)"

text \<open>A native handle is valid as long as no destroy call was made on it.\<close>
definition vk_valid :: "vk_call \<Rightarrow> ('t, 's, 'p) world \<Rightarrow> bool" where
  "vk_valid c w = (count_list (vk_log w) c = 0)"

text \<open>Modelled from the spec: \<^verbatim>\<open>destroy()\<close> is only declared in the header. The spec: it
  drains the registry (every entry with a live referent has its resource released, then
  all three collections are emptied), then releases the logical device and the instance
  iff their ownership flags are true, then marks the manager Destroyed; on a Destroyed
  manager it does nothing.\<close>
definition destroy :: "Manager \<Rightarrow> ('t, 's, 'p) world \<Rightarrow> Manager \<times> ('t, 's, 'p) world" where
  "destroy this w =
     (case teardown this of
        Destroyed \<Rightarrow> (this, w)
      | Active \<Rightarrow>
          (let w1 = drain (mManagedTensors this) w;
               w2 = drain (mManagedSequences this) w1;
               w3 = drain (mManagedAlgorithms this) w2;
               this1 = this\<lparr>mManagedTensors := [], mManagedSequences := [],
                            mManagedAlgorithms := []\<rparr>;
               w4 = (if mFreeDevice this then vk_destroy DestroyDevice (mDevice this) w3
                     else w3);
               w5 = (if mFreeInstance this then vk_destroy DestroyInstance (mInstance this) w4
                     else w4)
           in (this1\<lparr>teardown := Destroyed\<rparr>, w5)))"

text \<open>Modelled from the spec: the adoption constructor \<^verbatim>\<open>Manager(instance, physicalDevice,
  device)\<close> is only declared in the header. The spec: it accepts the caller's handles as
  they are and sets both ownership flags false. Every other member keeps its default
  initialiser.\<close>
definition Manager_adopt :: "vk_handle \<Rightarrow> vk_handle \<Rightarrow> vk_handle \<Rightarrow> Manager" where
  "Manager_adopt instance physicalDevice device =
     Manager_members\<lparr>mInstance := instance, mPhysicalDevice := physicalDevice,
                     mDevice := device, mFreeInstance := False, mFreeDevice := False\<rparr>"

subsection \<open>The dispatch workgroup of an Algorithm\<close>

text \<open>Modelled from the spec: the element count of a Tensor (Tensor.hpp is not part of the
  sources): the length of the data of a \<^verbatim>\<open>TensorT<T>\<close>, the \<^verbatim>\<open>elementTotalCount\<close> of
  a raw tensor.\<close>
fun elementCount :: "('t, 's, 'p) resource \<Rightarrow> uint32_t option" where
  "elementCount (TensorT_new _ _ data _) = Some (of_nat (length data))"
| "elementCount (Tensor_new _ _ _ elementTotalCount _ _ _) = Some elementTotalCount"
| "elementCount _ = None"

text \<open>Modelled from the spec: the workgroup an Algorithm dispatches with (Algorithm.hpp and
  Algorithm.cpp are not part of the sources). The spec: the one it was given, and
  \<open>(tensors[0].elementCount, 1, 1)\<close> when it was given the unset one. The spec gives no
  value for an unset workgroup with no tensor: \<open>None\<close>.\<close>
definition dispatch_workgroup :: "shared_ptr \<Rightarrow> ('t, 's, 'p) world \<Rightarrow> Workgroup option" where
  "dispatch_workgroup a w =
     (if a < length (heap w) then
        (case object (heap w ! a) of
           Algorithm_new _ tensors _ workgroup _ _ \<Rightarrow>
             (if workgroup = Workgroup_unset then
                (case tensors of
                   [] \<Rightarrow> None
                 | t # _ \<Rightarrow>
                     (if t < length (heap w)
                      then map_option (\<lambda>n. (n, 1, 1)) (elementCount (object (heap w ! t)))
                      else None))
              else Some workgroup)
         | _ \<Rightarrow> None)
      else None)"

subsection \<open>Sequences of calls, and several managers\<close>

datatype ('t, 's, 'p) call =
    Call_tensorT "'t list" TensorTypes
  | Call_tensor_raw void_ptr uint32_t uint32_t TensorDataTypes TensorTypes
  | Call_algorithm "shared_ptr list" "uint32_t list" Workgroup "'s list" "'p list"
  | Call_sequence uint32_t uint32_t
  | Call_clear
  | Call_destroy

text \<open>One call on a manager; a factory call returns the pointer it hands to its caller.\<close>
fun exec ::
  "('t, 's, 'p) call \<Rightarrow> Manager \<Rightarrow> ('t, 's, 'p) world
     \<Rightarrow> shared_ptr option \<times> Manager \<times> ('t, 's, 'p) world" where
  "exec (Call_tensorT data tensorType) this w =
     (let (p, this', w') = tensorT data tensorType this w in (Some p, this', w'))"
| "exec (Call_tensor_raw data n sz dataType tensorType) this w =
     (let (p, this', w') = tensor_raw data n sz dataType tensorType this w
      in (Some p, this', w'))"
| "exec (Call_algorithm tensors spirv workgroup sc pc) this w =
     (let (p, this', w') = algorithmT tensors spirv workgroup sc pc this w
      in (Some p, this', w'))"
| "exec (Call_sequence queueIndex totalTimestamps) this w =
     (let (p, this', w') = sequence queueIndex totalTimestamps this w in (Some p, this', w'))"
| "exec Call_clear this w = (let (this', w') = clear this w in (None, this', w'))"
| "exec Call_destroy this w = (let (this', w') = destroy this w in (None, this', w'))"

text \<open>The factory methods whose bodies are in the header.\<close>
fun is_factory :: "('t, 's, 'p) call \<Rightarrow> bool" where
  "is_factory (Call_tensorT _ _) = True"
| "is_factory (Call_tensor_raw _ _ _ _ _) = True"
| "is_factory (Call_algorithm _ _ _ _ _) = True"
| "is_factory _ = False"

text \<open>A sequence of calls on one manager, with the pointers handed out, oldest first.\<close>
fun run ::
  "('t, 's, 'p) call list \<Rightarrow> Manager \<Rightarrow> ('t, 's, 'p) world
     \<Rightarrow> shared_ptr list \<times> Manager \<times> ('t, 's, 'p) world" where
  "run [] this w = ([], this, w)"
| "run (c # cs) this w =
     (let (r, this1, w1) = exec c this w;
          (ps, this2, w2) = run cs this1 w1
      in ((case r of None \<Rightarrow> ps | Some p \<Rightarrow> p # ps), this2, w2))"

text \<open>Several managers in one program: each has its own members, all share the world.\<close>
record ('t, 's, 'p) program =
  managers :: "Manager list"
  shared :: "('t, 's, 'p) world"

text \<open>A call on the \<open>i\<close>-th manager.\<close>
definition invoke ::
  "nat \<Rightarrow> ('t, 's, 'p) call \<Rightarrow> ('t, 's, 'p) program \<Rightarrow> ('t, 's, 'p) program" where
  "invoke i c s =
     (if i < length (managers s)
      then (let (r, this', w') = exec c (managers s ! i) (shared s)
            in \<lparr>managers = (managers s)[i := this'], shared = w'\<rparr>)
      else s)"

fun invoke_all ::
  "nat \<Rightarrow> ('t, 's, 'p) call list \<Rightarrow> ('t, 's, 'p) program \<Rightarrow> ('t, 's, 'p) program" where
  "invoke_all i [] s = s"
| "invoke_all i (c # cs) s = invoke_all i cs (invoke i c s)"

text \<open>The control blocks a manager tracks.\<close>
definition tracked :: "Manager \<Rightarrow> weak_ptr set" where
  "tracked this =
     set (mManagedTensors this) \<union> set (mManagedSequences this) \<union> set (mManagedAlgorithms this)"

text \<open>The calls that construct a resource.\<close>
fun is_create :: "('t, 's, 'p) call \<Rightarrow> bool" where
  "is_create Call_clear = False"
| "is_create Call_destroy = False"
| "is_create _ = True"

text \<open>The device context a resource was constructed against: the handle arguments of its
  constructor call are the manager's \<^verbatim>\<open>mPhysicalDevice\<close> (where the constructor takes
  one) and \<^verbatim>\<open>mDevice\<close>.\<close>
fun constructed_against :: "Manager \<Rightarrow> ('t, 's, 'p) resource \<Rightarrow> bool" where
  "constructed_against this (TensorT_new pd d _ _) =
     (pd = mPhysicalDevice this \<and> d = mDevice this)"
| "constructed_against this (Tensor_new pd d _ _ _ _ _) =
     (pd = mPhysicalDevice this \<and> d = mDevice this)"
| "constructed_against this (Algorithm_new d _ _ _ _ _) = (d = mDevice this)"
| "constructed_against this (Sequence_new pd d _ _) =
     (pd = mPhysicalDevice this \<and> d = mDevice this)"

section \<open>Properties\<close>

subsection \<open>Registration by the factory methods\<close>

text \<open>
  Claim C1. Each resource-creation call of the header (\<open>tensorT\<close>, the float overload
  \<open>tensor\<close>, the raw-pointer overload, \<open>algorithmT\<close>) constructs the resource in a fresh
  control block, returns the pointer to it, and appends a weak pointer to that block to
  its registry collection (\<open>mManagedTensors\<close>, \<open>mManagedAlgorithms\<close>) if and only if
  \<open>mManageResources\<close> is true; when the flag is false the manager is returned as it was.
\<close>

theorem factory_registers_iff_managed:
  fixes w :: "('t, 's, 'p) world" and wf :: "(float, 's, 'p) world"
  shows
  "(case tensorT data tensorType this w of (p, this', w') \<Rightarrow>
      heap w' = heap w @
        [\<lparr>object = TensorT_new (mPhysicalDevice this) (mDevice this) data tensorType,
          use_count = 1, released = False\<rparr>] \<and>
      p = length (heap w) \<and>
      ((mManagedTensors this' = mManagedTensors this @ [Weak p]) = mManageResources this) \<and>
      this' = (if mManageResources this
               then this\<lparr>mManagedTensors := mManagedTensors this @ [Weak p]\<rparr> else this)) \<and>
   (case tensor fdata tensorType this wf of (p, this', w') \<Rightarrow>
      heap w' = heap wf @
        [\<lparr>object = TensorT_new (mPhysicalDevice this) (mDevice this) fdata tensorType,
          use_count = 1, released = False\<rparr>] \<and>
      p = length (heap wf) \<and>
      ((mManagedTensors this' = mManagedTensors this @ [Weak p]) = mManageResources this) \<and>
      this' = (if mManageResources this
               then this\<lparr>mManagedTensors := mManagedTensors this @ [Weak p]\<rparr> else this)) \<and>
   (case tensor_raw rdata elementTotalCount elementMemorySize dataType tensorType this w of
      (p, this', w') \<Rightarrow>
      heap w' = heap w @
        [\<lparr>object = Tensor_new (mPhysicalDevice this) (mDevice this) rdata
                     elementTotalCount elementMemorySize dataType tensorType,
          use_count = 1, released = False\<rparr>] \<and>
      p = length (heap w) \<and>
      ((mManagedTensors this' = mManagedTensors this @ [Weak p]) = mManageResources this) \<and>
      this' = (if mManageResources this
               then this\<lparr>mManagedTensors := mManagedTensors this @ [Weak p]\<rparr> else this)) \<and>
   (case algorithmT tensors spirv workgroup specializationConstants pushConstants this w of
      (p, this', w') \<Rightarrow>
      heap w' = heap w @
        [\<lparr>object = Algorithm_new (mDevice this) tensors spirv workgroup
                     specializationConstants pushConstants,
          use_count = 1, released = False\<rparr>] \<and>
      p = length (heap w) \<and>
      ((mManagedAlgorithms this' = mManagedAlgorithms this @ [Weak p]) = mManageResources this) \<and>
      this' = (if mManageResources this
               then this\<lparr>mManagedAlgorithms := mManagedAlgorithms this @ [Weak p]\<rparr>
               else this))"
  by (simp add: tensorT_def tensor_def tensor_raw_def algorithmT_def make_shared_def)

theorem factory_registers_iff_managed_witness:
  "fst (snd (tensorT [1::nat, 2] eDevice (Manager_members\<lparr>mManageResources := True\<rparr>)
               (\<lparr>heap = [], vk_log = []\<rparr> :: (nat, nat, nat) world)))
     = Manager_members\<lparr>mManageResources := True, mManagedTensors := [Weak 0]\<rparr> \<and>
   fst (snd (algorithmT [0] [7] Workgroup_unset [1::nat] [2::nat] Manager_members
               (\<lparr>heap = [], vk_log = []\<rparr> :: (nat, nat, nat) world)))
     = Manager_members"
  using factory_registers_iff_managed
    [where data = "[1::nat, 2]" and tensorType = eDevice
       and this = "Manager_members\<lparr>mManageResources := True\<rparr>"
       and w = "\<lparr>heap = [], vk_log = []\<rparr> :: (nat, nat, nat) world"]
    factory_registers_iff_managed
    [where tensors = "[0]" and spirv = "[7]" and workgroup = Workgroup_unset
       and specializationConstants = "[1::nat]" and pushConstants = "[2::nat]"
       and this = Manager_members
       and w = "\<lparr>heap = [], vk_log = []\<rparr> :: (nat, nat, nat) world"]
  by (simp add: split_beta Manager_members_def)

subsection \<open>The non-template overloads\<close>

text \<open>
  Claim C9. The non-template overloads are the single-precision instances of the generic
  forms: \<open>tensor\<close> returns what \<open>tensorT\<close> returns at element type \<open>float\<close>, and the
  non-template \<open>algorithm\<close> returns what \<open>algorithmT\<close> returns with both constant lists of
  type \<open>float\<close>; the pointer, the manager with its registries and the world are the same.
\<close>

theorem overloads_are_float_instances:
  fixes wf :: "(float, 's, 'p) world" and wa :: "('t, float, float) world"
  shows
  "tensor data tensorType this wf = tensorT (data :: float list) tensorType this wf \<and>
   algorithm tensors spirv workgroup specializationConstants pushConstants this wa =
     algorithmT tensors spirv workgroup (specializationConstants :: float list)
       (pushConstants :: float list) this wa"
  by (simp add: tensor_def algorithm_def)

theorem overloads_are_float_instances_witness:
  "tensor [1, 2] eHost (Manager_members\<lparr>mManageResources := True\<rparr>)
     (\<lparr>heap = [], vk_log = []\<rparr> :: (float, float, float) world)
   = (0, Manager_members\<lparr>mManageResources := True, mManagedTensors := [Weak 0]\<rparr>,
      \<lparr>heap = [\<lparr>object = TensorT_new None None [1, 2] eHost, use_count = 1,
                 released = False\<rparr>],
        vk_log = []\<rparr>) \<and>
   algorithm [0] [7] (1, 1, 1) [3] [4] (Manager_members\<lparr>mManageResources := True\<rparr>)
     (\<lparr>heap = [], vk_log = []\<rparr> :: (float, float, float) world)
   = (0, Manager_members\<lparr>mManageResources := True, mManagedAlgorithms := [Weak 0]\<rparr>,
      \<lparr>heap = [\<lparr>object = Algorithm_new None [0] [7] (1, 1, 1) [3] [4], use_count = 1,
                 released = False\<rparr>],
        vk_log = []\<rparr>)"
  using overloads_are_float_instances
    [where data = "[1, 2]" and tensorType = eHost
       and this = "Manager_members\<lparr>mManageResources := True\<rparr>"
       and wf = "\<lparr>heap = [], vk_log = []\<rparr> :: (float, float, float) world"
       and tensors = "[0]" and spirv = "[7]" and workgroup = "(1, 1, 1)"
       and specializationConstants = "[3]" and pushConstants = "[4]"
       and wa = "\<lparr>heap = [], vk_log = []\<rparr> :: (float, float, float) world"]
  by (simp add: tensorT_def algorithmT_def make_shared_def Manager_members_def)

subsection \<open>The default of the resource-management flag\<close>

lemma exec_factory_unmanaged:
  "is_factory c \<Longrightarrow> \<not> mManageResources this \<Longrightarrow> fst (snd (exec c this w)) = this"
  by (cases c) (simp_all add: tensorT_def tensor_raw_def algorithmT_def make_shared_def)

lemma run_factory_unmanaged:
  "list_all is_factory cs \<Longrightarrow> \<not> mManageResources this \<Longrightarrow> fst (snd (run cs this w)) = this"
proof (induction cs arbitrary: this w)
  case Nil
  then show ?case by simp
next
  case (Cons c cs)
  obtain r this1 w1 where e: "exec c this w = (r, this1, w1)"
    by (cases "exec c this w") auto
  with Cons.prems exec_factory_unmanaged [of c this w] have "this1 = this" by simp
  with Cons e show ?case by (simp add: split_beta)
qed

text \<open>
  Claim C10. The member initialiser of \<open>mManageResources\<close> is \<open>false\<close>. A manager whose
  constructor sets the handles, the ownership flags and the queues but leaves the flag as
  initialised keeps all three registry collections empty, and its whole state unchanged,
  through every sequence of \<open>tensorT\<close>, \<open>tensor\<close> and \<open>algorithm\<close> calls.
\<close>

theorem unmanaged_by_default:
  assumes "list_all is_factory cs"
    and "this = Manager_members\<lparr>mInstance := inst, mFreeInstance := fi,
            mPhysicalDevice := pd, mDevice := dev, mFreeDevice := fd,
            mComputeQueueFamilyIndices := qis, mComputeQueues := qs\<rparr>"
    and "run cs this w = (ps, this', w')"
  shows "\<not> mManageResources Manager_members \<and> this' = this \<and>
         mManagedTensors this' = [] \<and> mManagedSequences this' = [] \<and>
         mManagedAlgorithms this' = []"
proof -
  have "\<not> mManageResources this" using assms(2) by (simp add: Manager_members_def)
  with assms(1,3) run_factory_unmanaged [of cs this w] have "this' = this" by simp
  then show ?thesis using assms(2) by (simp add: Manager_members_def)
qed

theorem unmanaged_by_default_witness:
  "run [Call_tensorT [1::nat, 2] eDevice, Call_tensor_raw 0 2 4 3 eHost,
        Call_algorithm [0, 1] [7] Workgroup_unset [1::nat] [2::nat]]
     (Manager_members\<lparr>mInstance := Some 0, mFreeInstance := True,
            mPhysicalDevice := Some 1, mDevice := Some 2, mFreeDevice := True,
            mComputeQueueFamilyIndices := [0], mComputeQueues := [3]\<rparr>)
     \<lparr>heap = [], vk_log = []\<rparr>
   = ([0, 1, 2],
      Manager_members\<lparr>mInstance := Some 0, mFreeInstance := True,
            mPhysicalDevice := Some 1, mDevice := Some 2, mFreeDevice := True,
            mComputeQueueFamilyIndices := [0], mComputeQueues := [3]\<rparr>,
      \<lparr>heap = [\<lparr>object = TensorT_new (Some 1) (Some 2) [1, 2] eDevice, use_count = 1,
                 released = False\<rparr>,
               \<lparr>object = Tensor_new (Some 1) (Some 2) 0 2 4 3 eHost, use_count = 1,
                 released = False\<rparr>,
               \<lparr>object = Algorithm_new (Some 2) [0, 1] [7] Workgroup_unset [1] [2],
                 use_count = 1, released = False\<rparr>],
        vk_log = []\<rparr>) \<and>
   mManagedTensors (Manager_members\<lparr>mInstance := Some 0, mFreeInstance := True,
            mPhysicalDevice := Some 1, mDevice := Some 2, mFreeDevice := True,
            mComputeQueueFamilyIndices := [0], mComputeQueues := [3]\<rparr>) = []"
proof -
  let ?m = "Manager_members\<lparr>mInstance := Some 0, mFreeInstance := True,
            mPhysicalDevice := Some 1, mDevice := Some 2, mFreeDevice := True,
            mComputeQueueFamilyIndices := [0], mComputeQueues := [3]\<rparr>"
  let ?cs = "[Call_tensorT [1::nat, 2] eDevice, Call_tensor_raw 0 2 4 3 eHost,
        Call_algorithm [0, 1] [7] Workgroup_unset [1::nat] [2::nat]]"
  let ?w = "\<lparr>heap = [], vk_log = []\<rparr> :: (nat, nat, nat) world"
  have r: "run ?cs ?m ?w = ([0, 1, 2], ?m,
      \<lparr>heap = [\<lparr>object = TensorT_new (Some 1) (Some 2) [1, 2] eDevice, use_count = 1,
                 released = False\<rparr>,
               \<lparr>object = Tensor_new (Some 1) (Some 2) 0 2 4 3 eHost, use_count = 1,
                 released = False\<rparr>,
               \<lparr>object = Algorithm_new (Some 2) [0, 1] [7] Workgroup_unset [1] [2],
                 use_count = 1, released = False\<rparr>],
        vk_log = []\<rparr>)"
    by (simp add: tensorT_def tensor_raw_def algorithmT_def make_shared_def Manager_members_def)
  have f: "list_all is_factory ?cs" by simp
  from unmanaged_by_default [OF f refl r] r show ?thesis by simp
qed

subsection \<open>The device context of the created resources\<close>

lemma exec_factory_shape:
  assumes "is_factory c" and "exec c this w = (r, this', w')"
  shows "\<exists>x. r = Some (length (heap w)) \<and>
             w' = w\<lparr>heap := heap w @ [\<lparr>object = x, use_count = 1, released = False\<rparr>]\<rparr> \<and>
             constructed_against this x \<and>
             mPhysicalDevice this' = mPhysicalDevice this \<and> mDevice this' = mDevice this"
  using assms
  by (cases c) (auto simp: tensorT_def tensor_raw_def algorithmT_def make_shared_def)

text \<open>
  Claim C6. Every \<open>tensorT\<close>/\<open>tensor\<close> call passes the manager's \<open>mPhysicalDevice\<close> and
  \<open>mDevice\<close> to the constructor and every \<open>algorithm\<close> call passes its \<open>mDevice\<close>, and no
  factory call changes these members: after any sequence of factory calls on one manager,
  the pointers handed out are the new blocks of the heap, the heap below them is as it
  was, and every new resource is constructed against the device context the manager
  started with.
\<close>

theorem resources_share_device_context:
  assumes "list_all is_factory cs" and "run cs this w = (ps, this', w')"
  shows "mPhysicalDevice this' = mPhysicalDevice this \<and> mDevice this' = mDevice this \<and>
         ps = [length (heap w) ..< length (heap w) + length cs] \<and>
         length (heap w') = length (heap w) + length cs \<and>
         take (length (heap w)) (heap w') = heap w \<and>
         (\<forall>a. length (heap w) \<le> a \<and> a < length (heap w') \<longrightarrow>
              constructed_against this (object (heap w' ! a)))"
  using assms
proof (induction cs arbitrary: this w ps this' w')
  case Nil
  then show ?case by auto
next
  case (Cons c cs)
  obtain r this1 w1 where e: "exec c this w = (r, this1, w1)"
    by (cases "exec c this w") auto
  obtain qs this2 w2 where r2: "run cs this1 w1 = (qs, this2, w2)"
    by (cases "run cs this1 w1") auto
  from Cons.prems have fc: "is_factory c" and fcs: "list_all is_factory cs" by simp_all
  from exec_factory_shape [OF fc e] obtain x where
    x: "r = Some (length (heap w))"
       "w1 = w\<lparr>heap := heap w @ [\<lparr>object = x, use_count = 1, released = False\<rparr>]\<rparr>"
       "constructed_against this x"
       "mPhysicalDevice this1 = mPhysicalDevice this" "mDevice this1 = mDevice this"
    by blast
  from Cons.prems(2) e r2 x(1) have res: "ps = length (heap w) # qs" "this' = this2" "w' = w2"
    by simp_all
  note ih = Cons.IH [OF fcs r2]
  have l1: "length (heap w1) = Suc (length (heap w))" using x(2) by simp
  have ag: "constructed_against this1 y = constructed_against this y"
    for y :: "('a, 'b, 'c) resource"
    using x(4,5) by (cases y) simp_all
  have a1: "mPhysicalDevice this' = mPhysicalDevice this \<and> mDevice this' = mDevice this"
    using ih res x(4,5) by simp
  have a2: "ps = [length (heap w) ..< length (heap w) + length (c # cs)]"
    using ih res l1 by (simp add: upt_rec)
  have a3: "length (heap w') = length (heap w) + length (c # cs)"
    using ih res l1 by simp
  have "take (length (heap w)) (heap w2) =
          take (length (heap w)) (take (length (heap w1)) (heap w2))"
    using l1 by (simp add: min_def)
  also have "\<dots> = take (length (heap w)) (heap w1)" using ih by simp
  also have "\<dots> = heap w" using x(2) by simp
  finally have a4: "take (length (heap w)) (heap w') = heap w" using res by simp
  have a5: "constructed_against this (object (heap w' ! a))"
    if "length (heap w) \<le> a \<and> a < length (heap w')" for a
  proof (cases "a = length (heap w)")
    case True
    have "heap w2 ! a = take (length (heap w1)) (heap w2) ! a"
      using True l1 by simp
    also have "\<dots> = heap w1 ! a" using ih by simp
    also have "\<dots> = \<lparr>object = x, use_count = 1, released = False\<rparr>"
      using x(2) True by simp
    finally show ?thesis using x(3) res by simp
  next
    case False
    with that have "length (heap w1) \<le> a \<and> a < length (heap w2)" using l1 res by simp
    with ih have "constructed_against this1 (object (heap w2 ! a))" by blast
    then show ?thesis using ag res by simp
  qed
  from a1 a2 a3 a4 a5 show ?case by blast
qed

theorem resources_share_device_context_witness:
  "constructed_against
     (Manager_members\<lparr>mPhysicalDevice := Some 1, mDevice := Some 2, mManageResources := True\<rparr>)
     (TensorT_new (Some 1) (Some 2) [1::nat, 2] eDevice) \<and>
   constructed_against
     (Manager_members\<lparr>mPhysicalDevice := Some 1, mDevice := Some 2, mManageResources := True\<rparr>)
     (Tensor_new (Some 1) (Some 2) 0 2 4 3 eHost :: (nat, nat, nat) resource) \<and>
   constructed_against
     (Manager_members\<lparr>mPhysicalDevice := Some 1, mDevice := Some 2, mManageResources := True\<rparr>)
     (Algorithm_new (Some 2) [0, 1] [7] Workgroup_unset [1::nat] [2::nat]
        :: (nat, nat, nat) resource)"
proof -
  let ?m = "Manager_members\<lparr>mPhysicalDevice := Some 1, mDevice := Some 2,
              mManageResources := True\<rparr>"
  let ?cs = "[Call_tensorT [1::nat, 2] eDevice, Call_tensor_raw 0 2 4 3 eHost,
        Call_algorithm [0, 1] [7] Workgroup_unset [1::nat] [2::nat]]"
  let ?w = "\<lparr>heap = [], vk_log = []\<rparr> :: (nat, nat, nat) world"
  let ?w' = "\<lparr>heap = [\<lparr>object = TensorT_new (Some 1) (Some 2) [1, 2] eDevice, use_count = 1,
                 released = False\<rparr>,
               \<lparr>object = Tensor_new (Some 1) (Some 2) 0 2 4 3 eHost, use_count = 1,
                 released = False\<rparr>,
               \<lparr>object = Algorithm_new (Some 2) [0, 1] [7] Workgroup_unset [1] [2],
                 use_count = 1, released = False\<rparr>],
        vk_log = []\<rparr> :: (nat, nat, nat) world"
  have r: "run ?cs ?m ?w =
     ([0, 1, 2], ?m\<lparr>mManagedTensors := [Weak 0, Weak 1], mManagedAlgorithms := [Weak 2]\<rparr>, ?w')"
    by (simp add: tensorT_def tensor_raw_def algorithmT_def make_shared_def Manager_members_def)
  have f: "list_all is_factory ?cs" by simp
  from resources_share_device_context [OF f r]
  have "\<forall>a. 0 \<le> a \<and> a < 3 \<longrightarrow> constructed_against ?m (object (heap ?w' ! a))"
    by simp
  then have "constructed_against ?m (object (heap ?w' ! 0)) \<and>
             constructed_against ?m (object (heap ?w' ! 1)) \<and>
             constructed_against ?m (object (heap ?w' ! 2))"
    by simp
  then show ?thesis by simp
qed

subsection \<open>The registry does not own\<close>

text \<open>
  Claim C5. The registry collections hold weak pointers only (their element type is
  \<open>weak_ptr\<close>), and a registry entry takes no share in the lifetime of its resource: a
  factory call leaves the world exactly as the same call on an unmanaged manager does,
  the new resource has the one owner the call returns to, the use counts of all older
  resources are as they were, and when that one owner drops its pointer the resource is
  gone (the weak pointer is expired) although the manager, which the drop does not
  touch, still holds its entry.
\<close>

theorem registry_holds_weak_references_only:
  assumes "is_factory c" and "exec c this w = (r, this', w')"
  shows "r = Some (length (heap w)) \<and>
         (mManageResources this \<longrightarrow> Weak (length (heap w)) \<in> tracked this') \<and>
         w' = snd (snd (exec c (this\<lparr>mManageResources := False\<rparr>) w)) \<and>
         use_count (heap w' ! length (heap w)) = 1 \<and>
         (\<forall>a < length (heap w). use_count (heap w' ! a) = use_count (heap w ! a)) \<and>
         \<not> expired (Weak (length (heap w))) w' \<and>
         expired (Weak (length (heap w))) (drop_ptr (length (heap w)) w')"
  using assms
  by (cases c)
    (auto simp: tensorT_def tensor_raw_def algorithmT_def make_shared_def tracked_def
      drop_ptr_def nth_append)

theorem registry_holds_weak_references_only_witness:
  "exec (Call_tensorT [1::nat, 2] eDevice) (Manager_members\<lparr>mManageResources := True\<rparr>)
     (\<lparr>heap = [], vk_log = []\<rparr> :: (nat, nat, nat) world)
   = (Some 0, Manager_members\<lparr>mManageResources := True, mManagedTensors := [Weak 0]\<rparr>,
      \<lparr>heap = [\<lparr>object = TensorT_new None None [1, 2] eDevice, use_count = 1,
                 released = False\<rparr>],
        vk_log = []\<rparr>) \<and>
   Weak 0 \<in> tracked (Manager_members\<lparr>mManageResources := True, mManagedTensors := [Weak 0]\<rparr>) \<and>
   expired (Weak 0)
     (drop_ptr 0
        (\<lparr>heap = [\<lparr>object = TensorT_new None None [1::nat, 2] eDevice, use_count = 1,
                   released = False\<rparr>],
          vk_log = []\<rparr> :: (nat, nat, nat) world))"
proof -
  let ?m = "Manager_members\<lparr>mManageResources := True\<rparr>"
  let ?w = "\<lparr>heap = [], vk_log = []\<rparr> :: (nat, nat, nat) world"
  let ?w' = "\<lparr>heap = [\<lparr>object = TensorT_new None None [1::nat, 2] eDevice, use_count = 1,
                 released = False\<rparr>],
        vk_log = []\<rparr> :: (nat, nat, nat) world"
  have e: "exec (Call_tensorT [1::nat, 2] eDevice) ?m ?w
             = (Some 0, ?m\<lparr>mManagedTensors := [Weak 0]\<rparr>, ?w')"
    by (simp add: tensorT_def make_shared_def Manager_members_def)
  have f: "is_factory (Call_tensorT [1::nat, 2] eDevice :: (nat, nat, nat) call)" by simp
  note t = registry_holds_weak_references_only [OF f e]
  from t [THEN conjunct2, THEN conjunct1]
  have t1: "Weak 0 \<in> tracked (?m\<lparr>mManagedTensors := [Weak 0]\<rparr>)"
    by simp
  from t [THEN conjunct2, THEN conjunct2, THEN conjunct2, THEN conjunct2, THEN conjunct2,
    THEN conjunct2]
  have t2: "expired (Weak 0) (drop_ptr 0 ?w')"
    by simp
  from e t1 t2 show ?thesis by simp
qed

subsection \<open>The default workgroup\<close>

text \<open>
  Claim C7. An \<open>algorithm\<close> call (the template and the non-template overload) with the
  unset workgroup and a tensor list whose first tensor is in the heap with element count
  \<open>n\<close> constructs an Algorithm whose dispatch workgroup is \<open>(n, 1, 1)\<close>.
\<close>

theorem algorithm_default_workgroup:
  fixes w :: "('t, 's, 'p) world" and wa :: "('t, float, float) world"
  shows
  "(tensors \<noteq> [] \<and> hd tensors < length (heap w) \<and>
      elementCount (object (heap w ! hd tensors)) = Some n \<longrightarrow>
    (case algorithmT tensors spirv Workgroup_unset specializationConstants pushConstants this w
       of (a, this', w') \<Rightarrow> dispatch_workgroup a w' = Some (n, 1, 1))) \<and>
   (tensors \<noteq> [] \<and> hd tensors < length (heap wa) \<and>
      elementCount (object (heap wa ! hd tensors)) = Some n \<longrightarrow>
    (case algorithm tensors spirv Workgroup_unset fspec fpush this wa
       of (a, this', w') \<Rightarrow> dispatch_workgroup a w' = Some (n, 1, 1)))"
  by (cases tensors)
    (auto simp: algorithm_def algorithmT_def make_shared_def dispatch_workgroup_def nth_append)

theorem algorithm_default_workgroup_witness:
  "dispatch_workgroup 1
     (snd (snd (algorithm [0] [7] Workgroup_unset [] [] Manager_members
        (\<lparr>heap = [\<lparr>object = TensorT_new None None [1, 2, 3] eDevice, use_count = 1,
                   released = False\<rparr>],
          vk_log = []\<rparr> :: (float, float, float) world))))
   = Some (3, 1, 1)"
proof -
  let ?w = "\<lparr>heap = [\<lparr>object = TensorT_new None None [1, 2, 3] eDevice, use_count = 1,
                   released = False\<rparr>],
          vk_log = []\<rparr> :: (float, float, float) world"
  have h: "[0::nat] \<noteq> [] \<and> hd [0::nat] < length (heap ?w) \<and>
           elementCount (object (heap ?w ! hd [0::nat])) = Some 3"
    by simp
  have a: "fst (algorithm [0] [7] Workgroup_unset [] [] Manager_members ?w) = 1"
    by (simp add: algorithm_def algorithmT_def make_shared_def)
  from algorithm_default_workgroup
    [where tensors = "[0]" and n = 3 and wa = ?w and spirv = "[7]" and fspec = "[]"
       and fpush = "[]" and this = Manager_members, THEN conjunct2, rule_format, OF h] a
  show ?thesis by (simp add: split_beta)
qed

subsection \<open>Facts about the shared-pointer store\<close>

lemma release_live_length [simp]: "length (heap (release_live p w)) = length (heap w)"
  by (cases p) simp

lemma release_live_use_count [simp]:
  "use_count (heap (release_live p w) ! a) = use_count (heap w ! a)"
  by (cases p) (simp add: nth_list_update)

lemma release_live_object [simp]:
  "object (heap (release_live p w) ! a) = object (heap w ! a)"
  by (cases p) (simp add: nth_list_update)

lemma release_live_vk_log [simp]: "vk_log (release_live p w) = vk_log w"
  by (cases p) simp

lemma release_live_other: "p \<noteq> Weak a \<Longrightarrow> heap (release_live p w) ! a = heap w ! a"
  by (cases p) simp

lemma drain_length [simp]: "length (heap (drain ps w)) = length (heap w)"
  by (induction ps arbitrary: w) simp_all

lemma drain_use_count [simp]: "use_count (heap (drain ps w) ! a) = use_count (heap w ! a)"
  by (induction ps arbitrary: w) simp_all

lemma drain_object [simp]: "object (heap (drain ps w) ! a) = object (heap w ! a)"
  by (induction ps arbitrary: w) simp_all

lemma drain_vk_log [simp]: "vk_log (drain ps w) = vk_log w"
  by (induction ps arbitrary: w) simp_all

lemma drain_other: "Weak a \<notin> set ps \<Longrightarrow> heap (drain ps w) ! a = heap w ! a"
  by (induction ps arbitrary: w) (auto simp: release_live_other)

lemma vk_destroy_heap [simp]: "heap (vk_destroy c h w) = heap w"
  by (simp add: vk_destroy_def split: option.splits)

lemma drop_ptr_length [simp]: "length (heap (drop_ptr a w)) = length (heap w)"
  by (simp add: drop_ptr_def)

lemma drop_ptr_vk_log [simp]: "vk_log (drop_ptr a w) = vk_log w"
  by (simp add: drop_ptr_def)

lemma drop_ptr_other: "b \<noteq> a \<Longrightarrow> heap (drop_ptr a w) ! b = heap w ! b"
  by (simp add: drop_ptr_def)

lemma drop_ptr_last_owner:
  "a < length (heap w) \<Longrightarrow> use_count (heap w ! a) = 1 \<Longrightarrow>
     use_count (heap (drop_ptr a w) ! a) = 0"
  by (simp add: drop_ptr_def)

lemma drop_all_length [simp]: "length (heap (drop_all as w)) = length (heap w)"
  by (induction as arbitrary: w) simp_all

lemma drop_all_vk_log [simp]: "vk_log (drop_all as w) = vk_log w"
  by (induction as arbitrary: w) simp_all

lemma drop_all_other: "b \<notin> set as \<Longrightarrow> heap (drop_all as w) ! b = heap w ! b"
  by (induction as arbitrary: w) (auto simp: drop_ptr_other)

lemma drop_all_last_owners:
  assumes "distinct as" and "\<forall>a \<in> set as. a < length (heap w) \<and> use_count (heap w ! a) = 1"
    and "b \<in> set as"
  shows "use_count (heap (drop_all as w) ! b) = 0"
  using assms
proof (induction as arbitrary: w)
  case Nil
  then show ?case by simp
next
  case (Cons a as)
  show ?case
  proof (cases "b = a")
    case True
    with Cons.prems(1) have "b \<notin> set as" by simp
    then have "heap (drop_all as (drop_ptr a w)) ! b = heap (drop_ptr a w) ! b"
      by (rule drop_all_other)
    with True Cons.prems(2) show ?thesis by (simp add: drop_ptr_last_owner)
  next
    case False
    with Cons.prems(3) have b: "b \<in> set as" by simp
    have "x < length (heap (drop_ptr a w)) \<and> use_count (heap (drop_ptr a w) ! x) = 1"
      if "x \<in> set as" for x
    proof -
      from that Cons.prems(1) have "x \<noteq> a" by auto
      with that Cons.prems(2) show ?thesis by (simp add: drop_ptr_other)
    qed
    then have "\<forall>x \<in> set as. x < length (heap (drop_ptr a w)) \<and>
                 use_count (heap (drop_ptr a w) ! x) = 1"
      by blast
    with Cons.IH [of "drop_ptr a w"] Cons.prems(1) b show ?thesis by simp
  qed
qed

subsection \<open>The sweep\<close>

lemma exec_create_heap:
  assumes "is_create c" and "exec c this w = (r, this', w')"
  shows "r = Some (length (heap w)) \<and>
         (\<exists>x. w' = w\<lparr>heap := heap w @ [\<lparr>object = x, use_count = 1, released = False\<rparr>]\<rparr>) \<and>
         mManageResources this' = mManageResources this"
  using assms
  by (cases c)
    (auto simp: tensorT_def tensor_raw_def algorithmT_def sequence_def make_shared_def
      split: if_splits)

lemma exec_create_count:
  assumes "is_create c" and "mManageResources this" and "exec c this w = (r, this', w')"
  shows "length (mManagedTensors this') + length (mManagedSequences this') +
           length (mManagedAlgorithms this') =
         Suc (length (mManagedTensors this) + length (mManagedSequences this) +
           length (mManagedAlgorithms this))"
  using assms
  by (cases c)
    (auto simp: tensorT_def tensor_raw_def algorithmT_def sequence_def make_shared_def
      split: if_splits)

lemma exec_create_clear:
  assumes "is_create c" and "length (heap w0) \<le> length (heap w)"
    and "exec c this w = (r, this', w')"
  shows "fst (clear this' w0) = fst (clear this w0)"
  using assms
  by (cases c)
    (auto simp: tensorT_def tensor_raw_def algorithmT_def sequence_def make_shared_def
      clear_def split: if_splits)

lemma run_create_heap:
  assumes "list_all is_create cs" and "run cs this w = (ps, this', w')"
  shows "ps = [length (heap w) ..< length (heap w) + length cs] \<and>
         vk_log w' = vk_log w \<and>
         mManageResources this' = mManageResources this \<and>
         (\<exists>cells. heap w' = heap w @ cells \<and> length cells = length cs \<and>
                  (\<forall>x \<in> set cells. use_count x = 1))"
  using assms
proof (induction cs arbitrary: this w ps this' w')
  case Nil
  then show ?case by simp
next
  case (Cons c cs)
  obtain r this1 w1 where e: "exec c this w = (r, this1, w1)"
    by (cases "exec c this w") auto
  obtain qs this2 w2 where r2: "run cs this1 w1 = (qs, this2, w2)"
    by (cases "run cs this1 w1") auto
  from Cons.prems have fc: "is_create c" and fcs: "list_all is_create cs" by simp_all
  from exec_create_heap [OF fc e] obtain x where
    x: "r = Some (length (heap w))"
       "w1 = w\<lparr>heap := heap w @ [\<lparr>object = x, use_count = 1, released = False\<rparr>]\<rparr>"
       "mManageResources this1 = mManageResources this"
    by blast
  from Cons.prems(2) e r2 x(1) have res: "ps = length (heap w) # qs" "this' = this2" "w' = w2"
    by simp_all
  have l1: "length (heap w1) = Suc (length (heap w))" using x(2) by simp
  from Cons.IH [OF fcs r2] obtain cells where
    ih: "qs = [length (heap w1) ..< length (heap w1) + length cs]"
        "vk_log w2 = vk_log w1"
        "mManageResources this2 = mManageResources this1"
        "heap w2 = heap w1 @ cells" "length cells = length cs" "\<forall>x \<in> set cells. use_count x = 1"
    by blast
  have a1: "ps = [length (heap w) ..< length (heap w) + length (c # cs)]"
    using ih(1) res(1) l1 by (simp add: upt_rec)
  have a2: "vk_log w' = vk_log w" using ih(2) res(3) x(2) by simp
  have a3: "mManageResources this' = mManageResources this" using ih(3) res(2) x(3) by simp
  have a4: "\<exists>cells. heap w' = heap w @ cells \<and> length cells = length (c # cs) \<and>
                  (\<forall>x \<in> set cells. use_count x = 1)"
    using ih(4,5,6) res(3) x(2)
    by (intro exI [of _ "\<lparr>object = x, use_count = 1, released = False\<rparr> # cells"]) simp
  from a1 a2 a3 a4 show ?case by blast
qed

lemma run_create_count:
  assumes "list_all is_create cs" and "mManageResources this"
    and "run cs this w = (ps, this', w')"
  shows "length (mManagedTensors this') + length (mManagedSequences this') +
           length (mManagedAlgorithms this') =
         length (mManagedTensors this) + length (mManagedSequences this) +
           length (mManagedAlgorithms this) + length cs"
  using assms
proof (induction cs arbitrary: this w ps this' w')
  case Nil
  then show ?case by simp
next
  case (Cons c cs)
  obtain r this1 w1 where e: "exec c this w = (r, this1, w1)"
    by (cases "exec c this w") auto
  obtain qs this2 w2 where r2: "run cs this1 w1 = (qs, this2, w2)"
    by (cases "run cs this1 w1") auto
  from Cons.prems have fc: "is_create c" and fcs: "list_all is_create cs" by simp_all
  from exec_create_heap [OF fc e] Cons.prems(2) have m1: "mManageResources this1" by simp
  from Cons.prems(3) e r2 have res: "this' = this2" by (simp split: option.splits)
  from Cons.IH [OF fcs m1 r2] exec_create_count [OF fc Cons.prems(2) e] res
  show ?case by simp
qed

lemma run_create_clear:
  assumes "list_all is_create cs" and "length (heap w0) \<le> length (heap w)"
    and "run cs this w = (ps, this', w')"
  shows "fst (clear this' w0) = fst (clear this w0)"
  using assms
proof (induction cs arbitrary: this w ps this' w')
  case Nil
  then show ?case by simp
next
  case (Cons c cs)
  obtain r this1 w1 where e: "exec c this w = (r, this1, w1)"
    by (cases "exec c this w") auto
  obtain qs this2 w2 where r2: "run cs this1 w1 = (qs, this2, w2)"
    by (cases "run cs this1 w1") auto
  from Cons.prems have fc: "is_create c" and fcs: "list_all is_create cs" by simp_all
  from exec_create_heap [OF fc e] have "length (heap w) \<le> length (heap w1)" by auto
  with Cons.prems(2) have l: "length (heap w0) \<le> length (heap w1)" by simp
  from Cons.prems(3) e r2 have res: "this' = this2" by (simp split: option.splits)
  from Cons.IH [OF fcs l r2] exec_create_clear [OF fc Cons.prems(2) e] res
  show ?case by simp
qed

lemma expired_after_dropping_new:
  assumes "heap w1 = heap w @ cells" and "\<forall>x \<in> set cells. use_count x = 1"
  shows "expired p (drop_all [length (heap w) ..< length (heap w) + length cells] w1) = expired p w"
proof (cases p)
  case (Weak a)
  let ?ps = "[length (heap w) ..< length (heap w) + length cells]"
  have len: "length (heap w1) = length (heap w) + length cells" using assms(1) by simp
  show ?thesis
  proof (cases "a < length (heap w)")
    case True
    then have "a \<notin> set ?ps" by simp
    then have "heap (drop_all ?ps w1) ! a = heap w1 ! a" by (rule drop_all_other)
    also have "\<dots> = heap w ! a" using True assms(1) by (simp add: nth_append)
    finally show ?thesis using True Weak len by simp
  next
    case False
    show ?thesis
    proof (cases "a < length (heap w1)")
      case True
      with False len have mem: "a \<in> set ?ps" by simp
      have own: "\<forall>b \<in> set ?ps. b < length (heap w1) \<and> use_count (heap w1 ! b) = 1"
      proof
        fix b assume b: "b \<in> set ?ps"
        then have "heap w1 ! b = cells ! (b - length (heap w))"
          using assms(1) by (simp add: nth_append)
        moreover from b have "b - length (heap w) < length cells" by auto
        then have "cells ! (b - length (heap w)) \<in> set cells" by (rule nth_mem)
        ultimately show "b < length (heap w1) \<and> use_count (heap w1 ! b) = 1"
          using assms(2) b len by simp
      qed
      have "use_count (heap (drop_all ?ps w1) ! a) = 0"
        by (rule drop_all_last_owners [OF _ own mem]) simp
      with False Weak show ?thesis by simp
    next
      case False
      with \<open>\<not> a < length (heap w)\<close> Weak show ?thesis by simp
    qed
  qed
qed

lemma clear_cong:
  assumes "\<And>p. expired p w2 = expired p w1"
  shows "fst (clear this w2) = fst (clear this w1)"
  using assms by (simp add: clear_def)

lemma clear_nothing_expired:
  assumes "\<forall>p \<in> tracked this. \<not> expired p w"
  shows "fst (clear this w) = this"
  using assms by (simp add: clear_def tracked_def)

text \<open>
  Claim C2. For every manager state, \<open>clear\<close> keeps in each of the three collections
  exactly the entries whose referent is alive, in their order, removes the expired ones,
  and changes neither the world (no resource is destroyed or modified) nor any other
  member. After \<open>N\<close> creations on a managed manager the registry has \<open>N\<close> more entries;
  once the pointers handed out have all been dropped these \<open>N\<close> referents are expired,
  and \<open>clear\<close> then leaves the manager that \<open>clear\<close> would have left before the creations:
  the manager as it was before them, if none of its entries was expired.
\<close>

theorem clear_removes_exactly_expired:
  "(case clear this w of (this', w') \<Rightarrow>
      w' = w \<and>
      mManagedTensors this' = filter (\<lambda>p. \<not> expired p w) (mManagedTensors this) \<and>
      mManagedSequences this' = filter (\<lambda>p. \<not> expired p w) (mManagedSequences this) \<and>
      mManagedAlgorithms this' = filter (\<lambda>p. \<not> expired p w) (mManagedAlgorithms this) \<and>
      this'\<lparr>mManagedTensors := mManagedTensors this,
            mManagedSequences := mManagedSequences this,
            mManagedAlgorithms := mManagedAlgorithms this\<rparr> = this) \<and>
   (\<forall>cs ps this1 w1.
      list_all is_create cs \<and> mManageResources this \<and> run cs this w = (ps, this1, w1) \<longrightarrow>
        length (mManagedTensors this1) + length (mManagedSequences this1) +
          length (mManagedAlgorithms this1) =
        length (mManagedTensors this) + length (mManagedSequences this) +
          length (mManagedAlgorithms this) + length cs \<and>
        length ps = length cs \<and>
        (\<forall>a \<in> set ps. expired (Weak a) (drop_all ps w1)) \<and>
        clear this1 (drop_all ps w1) = (fst (clear this w), drop_all ps w1) \<and>
        ((\<forall>p \<in> tracked this. \<not> expired p w) \<longrightarrow>
           clear this1 (drop_all ps w1) = (this, drop_all ps w1)))"
proof (intro conjI allI impI)
  show "case clear this w of (this', w') \<Rightarrow>
      w' = w \<and>
      mManagedTensors this' = filter (\<lambda>p. \<not> expired p w) (mManagedTensors this) \<and>
      mManagedSequences this' = filter (\<lambda>p. \<not> expired p w) (mManagedSequences this) \<and>
      mManagedAlgorithms this' = filter (\<lambda>p. \<not> expired p w) (mManagedAlgorithms this) \<and>
      this'\<lparr>mManagedTensors := mManagedTensors this,
            mManagedSequences := mManagedSequences this,
            mManagedAlgorithms := mManagedAlgorithms this\<rparr> = this"
    by (simp add: clear_def)
next
  fix cs ps this1 and w1 :: "('a, 'b, 'c) world"
  assume a: "list_all is_create cs \<and> mManageResources this \<and> run cs this w = (ps, this1, w1)"
  then have cr: "list_all is_create cs" and m: "mManageResources this"
    and r: "run cs this w = (ps, this1, w1)" by simp_all
  from run_create_heap [OF cr r] obtain cells where
    h: "ps = [length (heap w) ..< length (heap w) + length cs]"
       "heap w1 = heap w @ cells" "length cells = length cs" "\<forall>x \<in> set cells. use_count x = 1"
    by blast
  have ex: "expired p (drop_all ps w1) = expired p w" for p
    using expired_after_dropping_new [OF h(2) h(4)] h(1,3) by simp
  show "length (mManagedTensors this1) + length (mManagedSequences this1) +
          length (mManagedAlgorithms this1) =
        length (mManagedTensors this) + length (mManagedSequences this) +
          length (mManagedAlgorithms this) + length cs"
    by (rule run_create_count [OF cr m r])
  show "length ps = length cs" using h(1) by simp
  show "\<forall>a \<in> set ps. expired (Weak a) (drop_all ps w1)"
    using ex h(1) by simp
  have "fst (clear this1 (drop_all ps w1)) = fst (clear this1 w)"
    by (rule clear_cong) (rule ex)
  also have "\<dots> = fst (clear this w)"
    by (rule run_create_clear [OF cr _ r]) simp
  finally have f: "fst (clear this1 (drop_all ps w1)) = fst (clear this w)" .
  have s: "snd (clear this1 (drop_all ps w1)) = drop_all ps w1" by (simp add: clear_def)
  from f s show c: "clear this1 (drop_all ps w1) = (fst (clear this w), drop_all ps w1)"
    by (simp add: prod_eq_iff)
  assume "\<forall>p \<in> tracked this. \<not> expired p w"
  then have "fst (clear this w) = this" by (rule clear_nothing_expired)
  with c show "clear this1 (drop_all ps w1) = (this, drop_all ps w1)" by simp
qed

theorem clear_removes_exactly_expired_witness:
  "clear
     (Manager_members\<lparr>mManageResources := True, mManagedTensors := [Weak 0, Weak 1],
        mManagedSequences := [Weak 3], mManagedAlgorithms := [Weak 2]\<rparr>)
     (\<lparr>heap = [\<lparr>object = TensorT_new None None [5::nat] eDevice, use_count = 1,
                 released = False\<rparr>,
               \<lparr>object = TensorT_new None None [1, 2] eDevice, use_count = 0,
                 released = False\<rparr>,
               \<lparr>object = Algorithm_new None [1] [7] Workgroup_unset [] [], use_count = 0,
                 released = False\<rparr>,
               \<lparr>object = Sequence_new None None 0 0, use_count = 0, released = False\<rparr>],
        vk_log = []\<rparr> :: (nat, nat, nat) world)
   = (Manager_members\<lparr>mManageResources := True, mManagedTensors := [Weak 0]\<rparr>,
      \<lparr>heap = [\<lparr>object = TensorT_new None None [5::nat] eDevice, use_count = 1,
                 released = False\<rparr>,
               \<lparr>object = TensorT_new None None [1, 2] eDevice, use_count = 0,
                 released = False\<rparr>,
               \<lparr>object = Algorithm_new None [1] [7] Workgroup_unset [] [], use_count = 0,
                 released = False\<rparr>,
               \<lparr>object = Sequence_new None None 0 0, use_count = 0, released = False\<rparr>],
        vk_log = []\<rparr>)"
proof -
  let ?m = "Manager_members\<lparr>mManageResources := True, mManagedTensors := [Weak 0]\<rparr>"
  let ?c0 = "\<lparr>object = TensorT_new None None [5::nat] eDevice, use_count = 1,
               released = False\<rparr> :: (nat, nat, nat) cell"
  let ?w = "\<lparr>heap = [?c0], vk_log = []\<rparr>"
  let ?cs = "[Call_tensorT [1::nat, 2] eDevice, Call_algorithm [1] [7] Workgroup_unset [] [],
              Call_sequence 0 0] :: (nat, nat, nat) call list"
  let ?m1 = "Manager_members\<lparr>mManageResources := True, mManagedTensors := [Weak 0, Weak 1],
        mManagedSequences := [Weak 3], mManagedAlgorithms := [Weak 2]\<rparr>"
  let ?w1 = "\<lparr>heap = [?c0,
               \<lparr>object = TensorT_new None None [1, 2] eDevice, use_count = 1,
                 released = False\<rparr>,
               \<lparr>object = Algorithm_new None [1] [7] Workgroup_unset [] [], use_count = 1,
                 released = False\<rparr>,
               \<lparr>object = Sequence_new None None 0 0, use_count = 1, released = False\<rparr>],
        vk_log = []\<rparr>"
  have r: "run ?cs ?m ?w = ([1, 2, 3], ?m1, ?w1)"
    by (simp add: tensorT_def algorithmT_def sequence_def make_shared_def Manager_members_def)
  have h: "list_all is_create ?cs \<and> mManageResources ?m \<and> run ?cs ?m ?w = ([1, 2, 3], ?m1, ?w1)"
    using r by simp
  have live: "\<forall>p \<in> tracked ?m. \<not> expired p ?w"
    by (simp add: tracked_def Manager_members_def)
  note t = clear_removes_exactly_expired
    [where this = ?m and w = ?w, THEN conjunct2, rule_format, OF h]
  from t [THEN conjunct2, THEN conjunct2, THEN conjunct2, THEN conjunct2, THEN mp, OF live]
  have "clear ?m1 (drop_all [1, 2, 3] ?w1) = (?m, drop_all [1, 2, 3] ?w1)" .
  then show ?thesis by (simp add: drop_ptr_def)
qed

subsection \<open>Teardown\<close>

text \<open>
  Claim C3. \<open>destroy\<close> is idempotent: a second call returns the manager and the world of
  the first call, which has marked the manager Destroyed; on a Destroyed manager
  \<open>destroy\<close> changes nothing; and over both calls no destroy call of the Vulkan API is
  logged more than once.
\<close>

theorem destroy_idempotent:
  "destroy (fst (destroy this w)) (snd (destroy this w)) = destroy this w \<and>
   teardown (fst (destroy this w)) = Destroyed \<and>
   destroy (this\<lparr>teardown := Destroyed\<rparr>) w = (this\<lparr>teardown := Destroyed\<rparr>, w) \<and>
   count_list (vk_log (snd (destroy (fst (destroy this w)) (snd (destroy this w))))) c
     \<le> count_list (vk_log w) c + 1"
proof -
  have idem: "destroy (fst (destroy this w)) (snd (destroy this w)) = destroy this w"
    by (cases "teardown this") (simp_all add: destroy_def Let_def)
  have mark: "teardown (fst (destroy this w)) = Destroyed"
    by (cases "teardown this") (simp_all add: destroy_def Let_def)
  have noop: "destroy (this\<lparr>teardown := Destroyed\<rparr>) w = (this\<lparr>teardown := Destroyed\<rparr>, w)"
    by (simp add: destroy_def)
  have once: "count_list (vk_log (snd (destroy this w))) c \<le> count_list (vk_log w) c + 1"
    by (cases "teardown this"; cases c; cases "mDevice this"; cases "mInstance this")
      (simp_all add: destroy_def Let_def vk_destroy_def)
  from idem mark noop once show ?thesis by simp
qed

theorem destroy_idempotent_witness:
  "destroy
     (fst (destroy (Manager_members\<lparr>mInstance := Some 0, mFreeInstance := True,
                      mDevice := Some 2, mFreeDevice := True, mManageResources := True,
                      mManagedTensors := [Weak 0]\<rparr>)
            (\<lparr>heap = [\<lparr>object = TensorT_new None (Some 2) [1::nat] eDevice, use_count = 1,
                       released = False\<rparr>],
              vk_log = []\<rparr> :: (nat, nat, nat) world)))
     (snd (destroy (Manager_members\<lparr>mInstance := Some 0, mFreeInstance := True,
                      mDevice := Some 2, mFreeDevice := True, mManageResources := True,
                      mManagedTensors := [Weak 0]\<rparr>)
            (\<lparr>heap = [\<lparr>object = TensorT_new None (Some 2) [1::nat] eDevice, use_count = 1,
                       released = False\<rparr>],
              vk_log = []\<rparr> :: (nat, nat, nat) world)))
   = (Manager_members\<lparr>mInstance := Some 0, mFreeInstance := True,
                      mDevice := Some 2, mFreeDevice := True, mManageResources := True,
                      mManagedTensors := [], teardown := Destroyed\<rparr>,
      \<lparr>heap = [\<lparr>object = TensorT_new None (Some 2) [1::nat] eDevice, use_count = 1,
                 released = True\<rparr>],
        vk_log = [DestroyDevice 2, DestroyInstance 0]\<rparr>)"
proof -
  let ?m = "Manager_members\<lparr>mInstance := Some 0, mFreeInstance := True,
                      mDevice := Some 2, mFreeDevice := True, mManageResources := True,
                      mManagedTensors := [Weak 0]\<rparr>"
  let ?w = "\<lparr>heap = [\<lparr>object = TensorT_new None (Some 2) [1::nat] eDevice, use_count = 1,
                       released = False\<rparr>],
              vk_log = []\<rparr> :: (nat, nat, nat) world"
  have d: "destroy ?m ?w
    = (Manager_members\<lparr>mInstance := Some 0, mFreeInstance := True,
                      mDevice := Some 2, mFreeDevice := True, mManageResources := True,
                      mManagedTensors := [], teardown := Destroyed\<rparr>,
      \<lparr>heap = [\<lparr>object = TensorT_new None (Some 2) [1::nat] eDevice, use_count = 1,
                 released = True\<rparr>],
        vk_log = [DestroyDevice 2, DestroyInstance 0]\<rparr>)"
    by (simp add: destroy_def Manager_members_def vk_destroy_def Let_def)
  from destroy_idempotent [where this = ?m and w = ?w, THEN conjunct1] have
    "destroy (fst (destroy ?m ?w)) (snd (destroy ?m ?w)) = destroy ?m ?w" .
  also note d
  finally show ?thesis .
qed

lemma exec_handles:
  assumes "exec c this w = (r, this', w')"
  shows "mFreeInstance this' = mFreeInstance this \<and> mFreeDevice this' = mFreeDevice this \<and>
         mInstance this' = mInstance this \<and> mPhysicalDevice this' = mPhysicalDevice this \<and>
         mDevice this' = mDevice this"
  using assms
  by (cases c)
    (auto simp: tensorT_def tensor_raw_def algorithmT_def sequence_def make_shared_def
      clear_def destroy_def Let_def split: if_splits lifecycle.splits)

lemma exec_not_owner_log:
  assumes "\<not> mFreeInstance this" and "\<not> mFreeDevice this" and "exec c this w = (r, this', w')"
  shows "vk_log w' = vk_log w"
  using assms
  by (cases c)
    (auto simp: tensorT_def tensor_raw_def algorithmT_def sequence_def make_shared_def
      clear_def destroy_def Let_def split: if_splits lifecycle.splits)

lemma run_not_owner:
  assumes "\<not> mFreeInstance this" and "\<not> mFreeDevice this" and "run cs this w = (ps, this', w')"
  shows "mFreeInstance this' = mFreeInstance this \<and> mFreeDevice this' = mFreeDevice this \<and>
         mInstance this' = mInstance this \<and> mPhysicalDevice this' = mPhysicalDevice this \<and>
         mDevice this' = mDevice this \<and> vk_log w' = vk_log w"
  using assms
proof (induction cs arbitrary: this w ps this' w')
  case Nil
  then show ?case by simp
next
  case (Cons c cs)
  obtain r this1 w1 where e: "exec c this w = (r, this1, w1)"
    by (cases "exec c this w") auto
  obtain qs this2 w2 where r2: "run cs this1 w1 = (qs, this2, w2)"
    by (cases "run cs this1 w1") auto
  from Cons.prems(3) e r2 have res: "this' = this2" "w' = w2" by (simp_all split: option.splits)
  note h = exec_handles [OF e] exec_not_owner_log [OF Cons.prems(1,2) e]
  from h Cons.prems(1,2) have n1: "\<not> mFreeInstance this1" "\<not> mFreeDevice this1" by simp_all
  from Cons.IH [OF n1 r2] h res show ?case by simp
qed

text \<open>
  Claim C4. The adoption constructor sets both ownership flags false. After any sequence
  of calls on a manager so constructed the flags are still false and the three handles
  are the adopted ones, and \<open>destroy\<close> then logs no destroy call: the log is the one from
  before the manager's calls, so every handle that was valid is still valid.
\<close>

theorem adopted_handles_survive_destroy:
  "\<not> mFreeInstance (Manager_adopt inst physDev dev) \<and>
   \<not> mFreeDevice (Manager_adopt inst physDev dev) \<and>
   (\<forall>cs ps this w'.
      run cs (Manager_adopt inst physDev dev) w = (ps, this, w') \<longrightarrow>
        \<not> mFreeInstance this \<and> \<not> mFreeDevice this \<and>
        mInstance this = inst \<and> mPhysicalDevice this = physDev \<and>
        mDevice this = dev \<and>
        vk_log (snd (destroy this w')) = vk_log w \<and>
        (\<forall>c. vk_valid c (snd (destroy this w')) = vk_valid c w))"
proof (intro conjI allI impI)
  show "\<not> mFreeInstance (Manager_adopt inst physDev dev)"
    by (simp add: Manager_adopt_def)
  show "\<not> mFreeDevice (Manager_adopt inst physDev dev)"
    by (simp add: Manager_adopt_def)
next
  fix cs ps this and w' :: "('a, 'b, 'c) world" and c
  assume r: "run cs (Manager_adopt inst physDev dev) w = (ps, this, w')"
  have n: "\<not> mFreeInstance (Manager_adopt inst physDev dev)"
    "\<not> mFreeDevice (Manager_adopt inst physDev dev)"
    by (simp_all add: Manager_adopt_def)
  from run_not_owner [OF n r]
  have k: "\<not> mFreeInstance this" "\<not> mFreeDevice this" "mInstance this = inst"
    "mPhysicalDevice this = physDev" "mDevice this = dev" "vk_log w' = vk_log w"
    by (simp_all add: Manager_adopt_def)
  show "\<not> mFreeInstance this" "\<not> mFreeDevice this" "mInstance this = inst"
    "mPhysicalDevice this = physDev" "mDevice this = dev"
    by (rule k)+
  have "exec Call_destroy this w' = (None, destroy this w')" by (simp add: split_beta)
  then have "vk_log (snd (destroy this w')) = vk_log w'"
    using exec_not_owner_log [OF k(1,2), of Call_destroy w' None "fst (destroy this w')" "snd (destroy this w')"]
    by simp
  with k(6) show l: "vk_log (snd (destroy this w')) = vk_log w" by simp
  then show "vk_valid c (snd (destroy this w')) = vk_valid c w" by (simp add: vk_valid_def)
qed

theorem adopted_handles_survive_destroy_witness:
  "vk_log (snd (destroy
     (Manager_adopt (Some 0) (Some 1) (Some 2))
     (\<lparr>heap = [\<lparr>object = TensorT_new (Some 1) (Some 2) [1::nat] eDevice, use_count = 1,
                 released = False\<rparr>],
        vk_log = []\<rparr> :: (nat, nat, nat) world))) = [] \<and>
   vk_valid (DestroyDevice 2) (snd (destroy
     (Manager_adopt (Some 0) (Some 1) (Some 2))
     (\<lparr>heap = [\<lparr>object = TensorT_new (Some 1) (Some 2) [1::nat] eDevice, use_count = 1,
                 released = False\<rparr>],
        vk_log = []\<rparr> :: (nat, nat, nat) world))) \<and>
   vk_valid (DestroyInstance 0) (snd (destroy
     (Manager_adopt (Some 0) (Some 1) (Some 2))
     (\<lparr>heap = [\<lparr>object = TensorT_new (Some 1) (Some 2) [1::nat] eDevice, use_count = 1,
                 released = False\<rparr>],
        vk_log = []\<rparr> :: (nat, nat, nat) world)))"
proof -
  let ?m = "Manager_adopt (Some 0) (Some 1) (Some 2)"
  let ?w = "\<lparr>heap = [], vk_log = []\<rparr> :: (nat, nat, nat) world"
  let ?w' = "\<lparr>heap = [\<lparr>object = TensorT_new (Some 1) (Some 2) [1::nat] eDevice, use_count = 1,
                 released = False\<rparr>],
        vk_log = []\<rparr> :: (nat, nat, nat) world"
  have r: "run [Call_tensorT [1::nat] eDevice] ?m ?w = ([0], ?m, ?w')"
    by (simp add: tensorT_def make_shared_def Manager_adopt_def Manager_members_def)
  note t = adopted_handles_survive_destroy
    [where inst = "Some 0" and physDev = "Some 1" and dev = "Some 2"
       and w = ?w, THEN conjunct2, THEN conjunct2, rule_format, OF r]
  from t have l: "vk_log (snd (destroy ?m ?w')) = vk_log ?w" by blast
  from t have v: "vk_valid c (snd (destroy ?m ?w')) = vk_valid c ?w" for c by blast
  have "vk_valid (DestroyDevice 2) ?w" "vk_valid (DestroyInstance 0) ?w"
    by (simp_all add: vk_valid_def)
  with l v show ?thesis by simp
qed

subsection \<open>Several managers\<close>

lemma exec_frame:
  assumes "exec c this w = (r, this', w')"
  shows "length (heap w) \<le> length (heap w') \<and>
         tracked this' \<subseteq> tracked this \<union> {Weak (length (heap w))} \<and>
         (\<forall>a < length (heap w). Weak a \<notin> tracked this \<longrightarrow> heap w' ! a = heap w ! a)"
proof (cases c)
  case Call_clear
  with assms show ?thesis by (auto simp: clear_def tracked_def)
next
  case Call_destroy
  have "heap (drain (mManagedAlgorithms this) (drain (mManagedSequences this)
          (drain (mManagedTensors this) w))) ! a = heap w ! a"
    if "Weak a \<notin> tracked this" for a
    using that by (simp add: tracked_def drain_other)
  with Call_destroy assms show ?thesis
    by (auto simp: destroy_def Let_def tracked_def split: lifecycle.splits)
qed (use assms in \<open>auto simp: tensorT_def tensor_raw_def algorithmT_def sequence_def
      make_shared_def tracked_def nth_append split: if_splits\<close>)

lemma run_frame:
  assumes "run cs this w = (ps, this', w')" and "a < length (heap w)"
    and "Weak a \<notin> tracked this"
  shows "heap w' ! a = heap w ! a"
  using assms
proof (induction cs arbitrary: this w ps this' w')
  case Nil
  then show ?case by simp
next
  case (Cons c cs)
  obtain r this1 w1 where e: "exec c this w = (r, this1, w1)"
    by (cases "exec c this w") auto
  obtain qs this2 w2 where r2: "run cs this1 w1 = (qs, this2, w2)"
    by (cases "run cs this1 w1") auto
  from Cons.prems(1) e r2 have res: "w' = w2" by (simp split: option.splits)
  note f = exec_frame [OF e]
  from f Cons.prems(2) have l: "a < length (heap w1)" by simp
  from f Cons.prems(2,3) have t: "Weak a \<notin> tracked this1" by auto
  from f Cons.prems(2,3) have "heap w1 ! a = heap w ! a" by simp
  with Cons.IH [OF r2 l t] res show ?case by simp
qed

lemma invoke_all_run:
  assumes "i < length (managers s)"
  shows "invoke_all i cs s =
           \<lparr>managers = (managers s)[i := fst (snd (run cs (managers s ! i) (shared s)))],
            shared = snd (snd (run cs (managers s ! i) (shared s)))\<rparr>"
  using assms
proof (induction cs arbitrary: s)
  case Nil
  then show ?case by simp
next
  case (Cons c cs)
  obtain r this1 w1 where e: "exec c (managers s ! i) (shared s) = (r, this1, w1)"
    by (cases "exec c (managers s ! i) (shared s)") auto
  with Cons.prems have s1: "invoke i c s = \<lparr>managers = (managers s)[i := this1], shared = w1\<rparr>"
    by (simp add: invoke_def)
  have "i < length (managers (invoke i c s))" using s1 Cons.prems by simp
  from Cons.IH [OF this] s1 e Cons.prems show ?case
    by (simp add: split_beta)
qed

text \<open>
  Claim C8. For two different managers of one program, every sequence of factory, clear
  and destroy calls on the one leaves the members of the other (its three registry
  collections and everything else) as they were; the calls cannot observe the other
  manager, since with the other's members replaced by anything the sequence has the same
  outcome; and the blocks that the other tracks and the calling manager does not track
  are unchanged in the heap.
\<close>

theorem managers_are_independent:
  assumes "i < length (managers s)" and "j < length (managers s)" and "i \<noteq> j"
  shows "managers (invoke_all i cs s) ! j = managers s ! j \<and>
         length (managers (invoke_all i cs s)) = length (managers s) \<and>
         (\<forall>m. invoke_all i cs (s\<lparr>managers := (managers s)[j := m]\<rparr>) =
               (invoke_all i cs s)\<lparr>managers := (managers (invoke_all i cs s))[j := m]\<rparr>) \<and>
         (\<forall>a. Weak a \<in> tracked (managers s ! j) \<and> Weak a \<notin> tracked (managers s ! i) \<and>
               a < length (heap (shared s)) \<longrightarrow>
               heap (shared (invoke_all i cs s)) ! a = heap (shared s) ! a)"
proof (intro conjI allI impI)
  note c = invoke_all_run [OF assms(1), of cs]
  show "managers (invoke_all i cs s) ! j = managers s ! j"
    using c assms(3) by simp
  show "length (managers (invoke_all i cs s)) = length (managers s)"
    using c by simp
  show "invoke_all i cs (s\<lparr>managers := (managers s)[j := m]\<rparr>) =
          (invoke_all i cs s)\<lparr>managers := (managers (invoke_all i cs s))[j := m]\<rparr>" for m
  proof -
    let ?s = "s\<lparr>managers := (managers s)[j := m]\<rparr>"
    have "i < length (managers ?s)" using assms(1) by simp
    from invoke_all_run [OF this, of cs] c assms(3) show ?thesis
      by (simp add: list_update_swap)
  qed
  show "heap (shared (invoke_all i cs s)) ! a = heap (shared s) ! a"
    if "Weak a \<in> tracked (managers s ! j) \<and> Weak a \<notin> tracked (managers s ! i) \<and>
        a < length (heap (shared s))" for a
  proof -
    obtain ps this' w' where r: "run cs (managers s ! i) (shared s) = (ps, this', w')"
      by (cases "run cs (managers s ! i) (shared s)") auto
    from run_frame [OF r] that have "heap w' ! a = heap (shared s) ! a" by simp
    with c r show ?thesis by simp
  qed
qed

theorem managers_are_independent_witness:
  "managers (invoke_all 0
      [Call_tensorT [1::nat] eDevice, Call_clear, Call_destroy]
      \<lparr>managers = [Manager_members\<lparr>mManageResources := True, mManagedTensors := [Weak 0]\<rparr>,
                    Manager_members\<lparr>mManageResources := True, mManagedTensors := [Weak 1]\<rparr>],
        shared = \<lparr>heap = [\<lparr>object = TensorT_new None None [5] eDevice, use_count = 1,
                            released = False\<rparr>,
                          \<lparr>object = TensorT_new None None [6] eDevice, use_count = 1,
                            released = False\<rparr>],
                   vk_log = []\<rparr> :: (nat, nat, nat) world\<rparr>) ! 1
   = Manager_members\<lparr>mManageResources := True, mManagedTensors := [Weak 1]\<rparr> \<and>
   heap (shared (invoke_all 0
      [Call_tensorT [1::nat] eDevice, Call_clear, Call_destroy]
      \<lparr>managers = [Manager_members\<lparr>mManageResources := True, mManagedTensors := [Weak 0]\<rparr>,
                    Manager_members\<lparr>mManageResources := True, mManagedTensors := [Weak 1]\<rparr>],
        shared = \<lparr>heap = [\<lparr>object = TensorT_new None None [5] eDevice, use_count = 1,
                            released = False\<rparr>,
                          \<lparr>object = TensorT_new None None [6] eDevice, use_count = 1,
                            released = False\<rparr>],
                   vk_log = []\<rparr> :: (nat, nat, nat) world\<rparr>)) ! 1
   = \<lparr>object = TensorT_new None None [6] eDevice, use_count = 1, released = False\<rparr>"
proof -
  let ?s = "\<lparr>managers = [Manager_members\<lparr>mManageResources := True, mManagedTensors := [Weak 0]\<rparr>,
                    Manager_members\<lparr>mManageResources := True, mManagedTensors := [Weak 1]\<rparr>],
        shared = \<lparr>heap = [\<lparr>object = TensorT_new None None [5] eDevice, use_count = 1,
                            released = False\<rparr>,
                          \<lparr>object = TensorT_new None None [6] eDevice, use_count = 1,
                            released = False\<rparr>],
                   vk_log = []\<rparr> :: (nat, nat, nat) world\<rparr>"
  have h: "0 < length (managers ?s)" "1 < length (managers ?s)" "(0::nat) \<noteq> 1"
    by simp_all
  note t = managers_are_independent
    [OF h, where cs = "[Call_tensorT [1::nat] eDevice, Call_clear, Call_destroy]"]
  have a: "Weak 1 \<in> tracked (managers ?s ! 1) \<and> Weak 1 \<notin> tracked (managers ?s ! 0) \<and>
           1 < length (heap (shared ?s))"
    by (simp add: tracked_def Manager_members_def)
  from t [THEN conjunct1]
    t [THEN conjunct2, THEN conjunct2, THEN conjunct2, rule_format, OF a]
  show ?thesis by simp
qed

end
